theory Spec2Isabelle
  imports Complex_Main "HOL-Library.AList" "HOL-Library.Sublist"
begin

section \<open>JavaScript values of the client\<close>

text \<open>
  The client is a React application (\<^verbatim>\<open>App.js\<close>, \<^verbatim>\<open>Sidebar\<close>, \<^verbatim>\<open>MapComponent\<close>,
  \<^verbatim>\<open>DataPreview\<close>). Its state holds plain JavaScript values: numbers, strings, arrays
  and objects. A number is a double; the model keeps its value as a real, together with
  the three special values that the code can tell apart (\<^verbatim>\<open>isNaN\<close>, truthiness,
  comparison). A string is the list of bytes of its UTF-8 text. An object is the list of its
  properties in insertion order; a property that is missing reads as \<^verbatim>\<open>undefined\<close>,
  which is \<open>None\<close> of \<open>map_of\<close>. The value \<^verbatim>\<open>null\<close> of the state variable
  \<^verbatim>\<open>bounds\<close> is \<open>None\<close>.
\<close>

datatype jsnum = NaN | NegInf | Fin real | PosInf

datatype jsval =
    Num jsnum
  | Str string
  | Arr "jsval list"
  | Obj "(string \<times> jsval) list"

type_synonym obj = "(string \<times> jsval) list"

text \<open>\<^verbatim>\<open>isNaN(x)\<close> on a number.\<close>

definition isNaN :: "jsnum \<Rightarrow> bool" where
  "isNaN x = (x = NaN)"

text \<open>\<^verbatim>\<open>a > b\<close> on numbers: false as soon as one side is NaN.\<close>

fun js_gt :: "jsnum \<Rightarrow> jsnum \<Rightarrow> bool" where
  "js_gt NaN _ = False"
| "js_gt _ NaN = False"
| "js_gt NegInf _ = False"
| "js_gt _ PosInf = False"
| "js_gt (Fin a) (Fin b) = (a > b)"
| "js_gt (Fin a) NegInf = True"
| "js_gt PosInf _ = True"

text \<open>
  Truthiness, as \<^verbatim>\<open>!x\<close>, \<^verbatim>\<open>x || y\<close> and \<^verbatim>\<open>x && y\<close> read it: the numbers 0 and NaN
  and the empty string are falsy, arrays and objects are truthy.
\<close>

fun truthy :: "jsval \<Rightarrow> bool" where
  "truthy (Num n) = (n \<noteq> NaN \<and> n \<noteq> Fin 0)"
| "truthy (Str s) = (s \<noteq> [])"
| "truthy (Arr _) = True"
| "truthy (Obj _) = True"

text \<open>
  The object spread \<^verbatim>\<open>{ ...o, [name]: v }\<close>: the properties of \<^verbatim>\<open>o\<close> (none when
  \<^verbatim>\<open>o\<close> is null), then \<^verbatim>\<open>name\<close> set to \<^verbatim>\<open>v\<close>, in place when the property
  exists and at the end otherwise. The second step is \<open>AList.update\<close>.
\<close>

definition spread :: "obj option \<Rightarrow> obj" where
  "spread o' = (case o' of None \<Rightarrow> [] | Some b \<Rightarrow> b)"

section \<open>Sidebar\<close>

text \<open>
  \<^verbatim>\<open>handleChange\<close>: \<^verbatim>\<open>setParams({ ...params, [name]: value })\<close>, where \<^verbatim>\<open>value\<close> is
  the string \<^verbatim>\<open>e.target.value\<close> of the input.
\<close>

definition handleChange :: "obj \<Rightarrow> string \<Rightarrow> string \<Rightarrow> obj" where
  "handleChange params name value = AList.update name (Str value) params"

text \<open>\<^verbatim>\<open>handleTypeChange\<close>: \<^verbatim>\<open>setParams({ ...params, type })\<close>.\<close>

definition handleTypeChange :: "obj \<Rightarrow> string \<Rightarrow> obj" where
  "handleTypeChange params type' = AList.update ''type'' (Str type') params"

text \<open>
  \<^verbatim>\<open>handleBoundsChange\<close> of the sidebar. The result is the argument of the call
  \<^verbatim>\<open>onBoundsChange(...)\<close>, or \<open>None\<close> when the handler returns without calling it.
  \<^verbatim>\<open>parseFloat\<close> is the platform's; the handler takes it as the parameter \<open>pf\<close>.
\<close>

definition handleBoundsChange :: "(string \<Rightarrow> jsnum) \<Rightarrow> obj option \<Rightarrow> string \<Rightarrow> string \<Rightarrow> obj option" where
  "handleBoundsChange pf bounds name value =
     (if value = [] then Some (AList.update name (Str []) (spread bounds))
      else let numValue = pf value in
        if \<not> isNaN numValue then Some (AList.update name (Num numValue) (spread bounds))
        else None)"

text \<open>
  The value shown by a bound input: \<^verbatim>\<open>value={bounds?.north || ''}\<close>, and the same for
  south, west and east.
\<close>

definition input_value :: "obj option \<Rightarrow> string \<Rightarrow> jsval" where
  "input_value bounds name =
     (case bounds of
        None \<Rightarrow> Str []
      | Some b \<Rightarrow> (case map_of b name of
                    None \<Rightarrow> Str []
                  | Some v \<Rightarrow> if truthy v then v else Str []))"

text \<open>
  The state variable \<^verbatim>\<open>bounds\<close> after the input \<^verbatim>\<open>name\<close> of the sidebar changes to
  \<^verbatim>\<open>value\<close>: \<^verbatim>\<open>onBoundsChange\<close> is \<^verbatim>\<open>setBounds\<close>.
\<close>

definition bounds_after_edit :: "(string \<Rightarrow> jsnum) \<Rightarrow> obj option \<Rightarrow> string \<Rightarrow> string \<Rightarrow> obj option" where
  "bounds_after_edit pf bounds name value =
     (case handleBoundsChange pf bounds name value of
        None \<Rightarrow> bounds
      | Some newBounds \<Rightarrow> Some newBounds)"

text \<open>
  The values of \<^verbatim>\<open>parseFloat\<close> on the strings that the examples below use:
  \<^verbatim>\<open>12.5\<close> and \<^verbatim>\<open>0\<close> parse, \<^verbatim>\<open>abc\<close> gives NaN. No example uses another
  string.
\<close>

definition parseFloat_sample :: "string \<Rightarrow> jsnum" where
  "parseFloat_sample s =
     (if s = ''12.5'' then Fin 12.5 else if s = ''0'' then Fin 0 else NaN)"

section \<open>MapComponent\<close>

text \<open>
  The object that \<^verbatim>\<open>onCreate\<close>, \<^verbatim>\<open>onEdited\<close> and the rectangle's \<^verbatim>\<open>edit\<close>
  listener pass to \<^verbatim>\<open>onBoundsChange\<close>, from the four numbers that the layer reports.
\<close>

definition rect_bounds :: "jsnum \<Rightarrow> jsnum \<Rightarrow> jsnum \<Rightarrow> jsnum \<Rightarrow> obj" where
  "rect_bounds n s e w =
     [(''north'', Num n), (''south'', Num s), (''east'', Num e), (''west'', Num w)]"

text \<open>\<^verbatim>\<open>onCreate\<close>: only a layer of type rectangle is reported.\<close>

definition onCreate :: "string \<Rightarrow> jsnum \<Rightarrow> jsnum \<Rightarrow> jsnum \<Rightarrow> jsnum \<Rightarrow> obj option" where
  "onCreate layerType n s e w =
     (if layerType = ''rectangle'' then Some (rect_bounds n s e w) else None)"

text \<open>
  \<^verbatim>\<open>onEdited\<close>: \<^verbatim>\<open>onBoundsChange\<close> is called for each edited layer in turn, so the
  bound of the last layer stays; with no layer there is no call.
\<close>

fun onEdited :: "(jsnum \<times> jsnum \<times> jsnum \<times> jsnum) list \<Rightarrow> obj option \<Rightarrow> obj option" where
  "onEdited [] bnds = bnds"
| "onEdited ((n, s, e, w) # layers) bnds = onEdited layers (Some (rect_bounds n s e w))"

text \<open>
  The condition under which the effect of \<^verbatim>\<open>MapComponent\<close> draws the rectangle of the
  bound (the map and the feature group being mounted): the bound is not null, its four
  fields have type number, \<^verbatim>\<open>north > south\<close> and \<^verbatim>\<open>east > west\<close>.
\<close>

definition draws_rectangle :: "obj option \<Rightarrow> bool" where
  "draws_rectangle bounds =
     (case bounds of
        None \<Rightarrow> False
      | Some b \<Rightarrow>
          (case (map_of b ''north'', map_of b ''south'', map_of b ''east'', map_of b ''west'') of
             (Some (Num n), Some (Num s), Some (Num e), Some (Num w)) \<Rightarrow> js_gt n s \<and> js_gt e w
           | _ \<Rightarrow> False))"

section \<open>App: the search session\<close>

text \<open>
  The messages of the service, as \<^verbatim>\<open>ws.onmessage\<close> tells them apart after
  \<^verbatim>\<open>JSON.parse\<close>: by the field \<^verbatim>\<open>type\<close>. The fields \<^verbatim>\<open>message\<close> and \<^verbatim>\<open>csv\<close>
  are strings, as the service sends them; \<^verbatim>\<open>filename\<close> may be missing. A message of
  any other type is \<open>Other\<close>: no branch of the handler runs.
\<close>

datatype inbound =
    Log string
  | Error string
  | Complete string "string option"
  | Other

datatype ready_state = CONNECTING | OPEN | CLOSING | CLOSED

text \<open>
  A WebSocket made by \<^verbatim>\<open>handleSubmit\<close>. Its handlers close over the \<^verbatim>\<open>bounds\<close> and
  \<^verbatim>\<open>params\<close> of the render in which the button was clicked; \<open>sent\<close> lists the values
  whose \<^verbatim>\<open>JSON.stringify\<close> text went out through \<^verbatim>\<open>ws.send\<close>, and \<open>closes\<close> counts
  the calls of \<^verbatim>\<open>ws.close()\<close>.
\<close>

record websocket =
  readyState :: ready_state
  req_bounds :: obj
  req_params :: obj
  sent :: "jsval list"
  closes :: nat

text \<open>
  A file offered to the user: the bytes of the Blob, its type, the download attribute.
  The Blob holds its text in UTF-8, so its bytes are those of the string.
\<close>

record download =
  content :: string
  mime :: string
  filename :: string

text \<open>
  The state of \<^verbatim>\<open>App\<close> (\<^verbatim>\<open>bounds\<close>, \<^verbatim>\<open>params\<close>, \<^verbatim>\<open>loading\<close>,
  \<^verbatim>\<open>previewData\<close>, \<^verbatim>\<open>logs\<close>) together with what the component has done to its
  surroundings: the sockets it has made, in order, the alerts it has shown, the lines
  written by \<^verbatim>\<open>console.error\<close> and the downloads it has started.
\<close>

record app =
  bounds :: "obj option"
  params :: obj
  loading :: bool
  previewData :: "string option"
  logs :: "string list"
  sockets :: "websocket list"
  alerts :: "string list"
  console :: "string list"
  downloads :: "download list"

definition initial_params :: obj where
  "initial_params =
     [(''startDate'', Str ''2020-01-01''), (''endDate'', Str ''2024-12-31''),
      (''minDepth'', Num (Fin 0)), (''maxDepth'', Num (Fin 2000)),
      (''type'', Str ''core''), (''variables'', Arr [Str ''Temp'', Str ''Psal''])]"

definition initial :: app where
  "initial = \<lparr>bounds = None, params = initial_params, loading = False, previewData = None,
     logs = [], sockets = [], alerts = [], console = [], downloads = []\<rparr>"

text \<open>
  \<^verbatim>\<open>handleSubmit\<close> up to \<^verbatim>\<open>new WebSocket(...)\<close>: the only check is \<^verbatim>\<open>!bounds\<close>.
\<close>

definition handleSubmit :: "app \<Rightarrow> app" where
  "handleSubmit w =
     (case bounds w of
        None \<Rightarrow> w\<lparr>alerts := alerts w @ [''Please select an area on the map first'']\<rparr>
      | Some b \<Rightarrow>
          w\<lparr>loading := True, previewData := None, logs := [''Initializing connection...''],
            sockets := sockets w @
              [\<lparr>readyState = CONNECTING, req_bounds = b, req_params = params w,
                sent = [], closes = 0\<rparr>]\<rparr>)"

text \<open>The value \<^verbatim>\<open>{ bounds, params }\<close> that \<^verbatim>\<open>ws.onopen\<close> serialises.\<close>

definition request :: "websocket \<Rightarrow> jsval" where
  "request ws = Obj [(''bounds'', Obj (req_bounds ws)), (''params'', Obj (req_params ws))]"

definition onopen :: "websocket \<Rightarrow> websocket" where
  "onopen ws = ws\<lparr>sent := sent ws @ [request ws]\<rparr>"

text \<open>\<^verbatim>\<open>ws.close()\<close>: a socket that is not closed yet starts closing.\<close>

definition ws_close :: "websocket \<Rightarrow> websocket" where
  "ws_close ws =
     ws\<lparr>readyState := (if readyState ws = CLOSED then CLOSED else CLOSING),
        closes := closes ws + 1\<rparr>"

text \<open>The byte-order mark U+FEFF that the Blob starts with, as its three UTF-8 bytes.\<close>

definition BOM :: string where
  "BOM = [CHR 0xEF, CHR 0xBB, CHR 0xBF]"

text \<open>
  \<^verbatim>\<open>ws.onmessage\<close> of socket \<open>i\<close>. \<^verbatim>\<open>link.setAttribute('download', data.filename)\<close>
  turns a missing filename into the text \<^verbatim>\<open>undefined\<close>.
\<close>

definition onmessage :: "nat \<Rightarrow> inbound \<Rightarrow> app \<Rightarrow> app" where
  "onmessage i data w =
     (case data of
        Log message \<Rightarrow> w\<lparr>logs := logs w @ [message]\<rparr>
      | Error message \<Rightarrow>
          w\<lparr>alerts := alerts w @ [''Error: '' @ message], loading := False,
            sockets := (sockets w)[i := ws_close (sockets w ! i)]\<rparr>
      | Complete csv fname \<Rightarrow>
          w\<lparr>downloads := downloads w @
              [\<lparr>content = BOM @ csv, mime = ''text/csv;charset=utf-8;'',
                filename = (case fname of None \<Rightarrow> ''undefined'' | Some f \<Rightarrow> f)\<rparr>],
            previewData := Some csv, loading := False,
            sockets := (sockets w)[i := ws_close (sockets w ! i)]\<rparr>
      | Other \<Rightarrow> w)"

definition onerror :: "app \<Rightarrow> app" where
  "onerror w =
     w\<lparr>console := console w @ [''WebSocket Error:''], loading := False,
       alerts := alerts w @ [''Connection failed.'']\<rparr>"

text \<open>
  What can happen to the component. The platform delivers \<^verbatim>\<open>open\<close> to a connecting
  socket, \<^verbatim>\<open>message\<close> to an open one and \<^verbatim>\<open>error\<close> to one that is not closed yet, and
  the failed socket is closed; \<^verbatim>\<open>close\<close> closes the socket, and the code sets no
  \<^verbatim>\<open>onclose\<close>. An event for a socket that does not exist changes nothing.
\<close>

datatype event =
    BoundsInput string string
  | ParamInput string string
  | TypeCore
  | TypeBio
  | MapCreated string jsnum jsnum jsnum jsnum
  | MapEdited "(jsnum \<times> jsnum \<times> jsnum \<times> jsnum) list"
  | ClosePreview
  | Submit
  | WsOpen nat
  | WsMessage nat inbound
  | WsError nat
  | WsClose nat

fun step :: "(string \<Rightarrow> jsnum) \<Rightarrow> app \<Rightarrow> event \<Rightarrow> app" where
  "step pf w (BoundsInput name value) = w\<lparr>bounds := bounds_after_edit pf (bounds w) name value\<rparr>"
| "step pf w (ParamInput name value) = w\<lparr>params := handleChange (params w) name value\<rparr>"
| "step pf w TypeCore = w\<lparr>params := handleTypeChange (params w) ''core''\<rparr>"
| "step pf w TypeBio = w\<lparr>params := handleTypeChange (params w) ''bio''\<rparr>"
| "step pf w (MapCreated layerType n s e x) =
     (case onCreate layerType n s e x of None \<Rightarrow> w | Some b \<Rightarrow> w\<lparr>bounds := Some b\<rparr>)"
| "step pf w (MapEdited layers) = w\<lparr>bounds := onEdited layers (bounds w)\<rparr>"
| "step pf w ClosePreview = w\<lparr>previewData := None\<rparr>"
| "step pf w Submit = handleSubmit w"
| "step pf w (WsOpen i) =
     (if i < length (sockets w) \<and> readyState (sockets w ! i) = CONNECTING
      then w\<lparr>sockets := (sockets w)[i := onopen ((sockets w ! i)\<lparr>readyState := OPEN\<rparr>)]\<rparr>
      else w)"
| "step pf w (WsMessage i data) =
     (if i < length (sockets w) \<and> readyState (sockets w ! i) = OPEN
      then onmessage i data w else w)"
| "step pf w (WsError i) =
     (if i < length (sockets w) \<and> readyState (sockets w ! i) \<noteq> CLOSED
      then onerror (w\<lparr>sockets := (sockets w)[i := (sockets w ! i)\<lparr>readyState := CLOSED\<rparr>]\<rparr>)
      else w)"
| "step pf w (WsClose i) =
     (if i < length (sockets w)
      then w\<lparr>sockets := (sockets w)[i := (sockets w ! i)\<lparr>readyState := CLOSED\<rparr>]\<rparr>
      else w)"

fun run :: "(string \<Rightarrow> jsnum) \<Rightarrow> app \<Rightarrow> event list \<Rightarrow> app" where
  "run pf w [] = w"
| "run pf w (e # es) = run pf (step pf w e) es"

text \<open>A socket counts as live while it is connecting or open.\<close>

definition live :: "websocket \<Rightarrow> bool" where
  "live ws = (readyState ws = CONNECTING \<or> readyState ws = OPEN)"

text \<open>A socket is finished once it is closing or closed.\<close>

definition finished :: "websocket \<Rightarrow> bool" where
  "finished ws = (readyState ws = CLOSING \<or> readyState ws = CLOSED)"

text \<open>The fields that the initial \<^verbatim>\<open>params\<close> has; no handler removes a field.\<close>

definition has_fields :: "obj \<Rightarrow> bool" where
  "has_fields p =
     list_all (\<lambda>k. map_of p k \<noteq> None)
       [''startDate'', ''endDate'', ''minDepth'', ''maxDepth'', ''type'', ''variables'']"

text \<open>
  What holds of every socket at every moment: nothing is sent while it connects, an open
  socket has sent the request and nothing else, and no socket ever has sent anything but
  the one request.
\<close>

definition sock_inv :: "websocket \<Rightarrow> bool" where
  "sock_inv ws =
     ((readyState ws = CONNECTING \<longrightarrow> sent ws = [])
      \<and> (readyState ws = OPEN \<longrightarrow> sent ws = [request ws])
      \<and> (sent ws = [] \<or> sent ws = [request ws])
      \<and> has_fields (req_params ws))"

definition app_inv :: "app \<Rightarrow> bool" where
  "app_inv w = (has_fields (params w) \<and> list_all sock_inv (sockets w))"

section \<open>What the inputs and the map deliver\<close>

text \<open>
  The four bound inputs of the sidebar are \<^verbatim>\<open><input type="number">\<close>: the value that
  such an input hands to \<^verbatim>\<open>onChange\<close> is the empty string, also when the text typed
  is no number, or a string that \<^verbatim>\<open>parseFloat\<close> reads as a finite number.
\<close>

definition is_fin :: "jsnum \<Rightarrow> bool" where
  "is_fin n = (case n of Fin _ \<Rightarrow> True | _ \<Rightarrow> False)"

definition number_input_value :: "(string \<Rightarrow> jsnum) \<Rightarrow> string \<Rightarrow> bool" where
  "number_input_value pf value = (value = [] \<or> is_fin (pf value))"

text \<open>
  The two date inputs are \<^verbatim>\<open><input type="date">\<close>: their value is the empty string
  when no date is set, and otherwise a date \<^verbatim>\<open>yyyy-mm-dd\<close> with a year of four or more
  digits, a month from 01 to 12 and a day from 01 to 31.
\<close>

definition is_digit :: "char \<Rightarrow> bool" where
  "is_digit c = (c \<in> set ''0123456789'')"

definition two_digits :: "char \<Rightarrow> char \<Rightarrow> nat" where
  "two_digits a b = 10 * (of_char a - 48) + (of_char b - 48)"

definition date_input_value :: "string \<Rightarrow> bool" where
  "date_input_value value =
     (value = [] \<or>
      (4 \<le> length (takeWhile is_digit value) \<and>
       (case dropWhile is_digit value of
          [d1, m1, m2, d2, a, b] \<Rightarrow>
            d1 = CHR ''-'' \<and> is_digit m1 \<and> is_digit m2 \<and> d2 = CHR ''-'' \<and> is_digit a \<and> is_digit b
            \<and> 1 \<le> two_digits m1 m2 \<and> two_digits m1 m2 \<le> 12
            \<and> 1 \<le> two_digits a b \<and> two_digits a b \<le> 31
        | _ \<Rightarrow> False)))"

text \<open>
  The events that the running client can receive. \<^verbatim>\<open>handleBoundsChange\<close> is the
  \<^verbatim>\<open>onChange\<close> of the inputs named north, south, west and east, and of nothing else;
  \<^verbatim>\<open>handleChange\<close> is that of the date inputs \<^verbatim>\<open>startDate\<close> and \<^verbatim>\<open>endDate\<close> and
  of the inputs \<^verbatim>\<open>minDepth\<close> and \<^verbatim>\<open>maxDepth\<close>. The map reports finite numbers.
\<close>

fun deliverable :: "(string \<Rightarrow> jsnum) \<Rightarrow> event \<Rightarrow> bool" where
  "deliverable pf (BoundsInput name value) =
     (name \<in> set [''north'', ''south'', ''west'', ''east''] \<and> number_input_value pf value)"
| "deliverable pf (ParamInput name value) =
     (if name = ''startDate'' \<or> name = ''endDate'' then date_input_value value
      else name = ''minDepth'' \<or> name = ''maxDepth'')"
| "deliverable pf (MapCreated layerType n s e w) = (is_fin n \<and> is_fin s \<and> is_fin e \<and> is_fin w)"
| "deliverable pf (MapEdited layers) =
     list_all (\<lambda>l. case l of (n, s, e, w) \<Rightarrow> is_fin n \<and> is_fin s \<and> is_fin e \<and> is_fin w) layers"
| "deliverable pf _ = True"

text \<open>
  The shape of the bound that such events build: no field but north, south, east and
  west, none twice, and every field a finite number or the unset value.
\<close>

definition bound_value :: "jsval \<Rightarrow> bool" where
  "bound_value v = (case v of Num n \<Rightarrow> is_fin n | Str s \<Rightarrow> s = [] | _ \<Rightarrow> False)"

definition bounds_shape :: "obj \<Rightarrow> bool" where
  "bounds_shape b =
     (distinct (map fst b)
      \<and> list_all (\<lambda>kv. fst kv \<in> set [''north'', ''south'', ''east'', ''west'']
                        \<and> bound_value (snd kv)) b)"

text \<open>
  The shape of the parameters: the six fields of the initial state and no other, the
  dates as the date inputs give them, the type core or bio, the variables as they were.
\<close>

definition date_field :: "obj \<Rightarrow> string \<Rightarrow> bool" where
  "date_field p k = (case map_of p k of Some (Str s) \<Rightarrow> date_input_value s | _ \<Rightarrow> False)"

definition params_shape :: "obj \<Rightarrow> bool" where
  "params_shape p =
     (map fst p = [''startDate'', ''endDate'', ''minDepth'', ''maxDepth'', ''type'', ''variables'']
      \<and> date_field p ''startDate'' \<and> date_field p ''endDate''
      \<and> (map_of p ''type'' = Some (Str ''core'') \<or> map_of p ''type'' = Some (Str ''bio''))
      \<and> map_of p ''variables'' = Some (Arr [Str ''Temp'', Str ''Psal'']))"

definition state_shape :: "app \<Rightarrow> bool" where
  "state_shape w =
     (params_shape (params w)
      \<and> (case bounds w of None \<Rightarrow> True | Some b \<Rightarrow> bounds_shape b))"

section \<open>The earlier HTTP variant of App\<close>

text \<open>Decimal digits of a natural number, as a template literal prints an integer.\<close>

fun dec :: "nat \<Rightarrow> string" where
  "dec n = (if n < 10 then [''0123456789'' ! n] else dec (n div 10) @ [''0123456789'' ! (n mod 10)])"

text \<open>
  The download name of the variant that posts the query with axios:
  \<^verbatim>\<open>`argo_${params.type}_data_${Date.now()}.csv`\<close>, for the string \<^verbatim>\<open>params.type\<close> and
  the clock reading in milliseconds.
\<close>

definition http_download_name :: "string \<Rightarrow> nat \<Rightarrow> string" where
  "http_download_name type' now = ''argo_'' @ type' @ ''_data_'' @ dec now @ ''.csv''"

section \<open>DataPreview\<close>

text \<open>
  \<^verbatim>\<open>s.split(c)\<close> for a separator of one character: the pieces between the separators,
  in order; the empty string gives one empty piece.
\<close>

fun split_js :: "'a \<Rightarrow> 'a list \<Rightarrow> 'a list list" where
  "split_js c [] = [[]]"
| "split_js c (x # xs) =
     (if x = c then [] # split_js c xs
      else (case split_js c xs of [] \<Rightarrow> [[x]] | r # rs \<Rightarrow> (x # r) # rs))"

text \<open>\<^verbatim>\<open>xs.slice(a, b)\<close> for \<open>0 \<le> a \<le> b\<close>.\<close>

definition slice :: "nat \<Rightarrow> nat \<Rightarrow> 'a list \<Rightarrow> 'a list" where
  "slice a b xs = take (b - a) (drop a xs)"

text \<open>
  The characters that \<^verbatim>\<open>trim()\<close> removes, each as its UTF-8 bytes: tab, line feed,
  vertical tab, form feed, carriage return, space, U+00A0, U+1680, U+2000 to U+200A,
  U+2028, U+2029, U+202F, U+205F, U+3000 and U+FEFF.
\<close>

definition white_space :: "string list" where
  "white_space =
     [[CHR 0x09], [CHR 0x0A], [CHR 0x0B], [CHR 0x0C], [CHR 0x0D], [CHR 0x20],
      [CHR 0xC2, CHR 0xA0], [CHR 0xE1, CHR 0x9A, CHR 0x80],
      [CHR 0xE2, CHR 0x80, CHR 0x80], [CHR 0xE2, CHR 0x80, CHR 0x81],
      [CHR 0xE2, CHR 0x80, CHR 0x82], [CHR 0xE2, CHR 0x80, CHR 0x83],
      [CHR 0xE2, CHR 0x80, CHR 0x84], [CHR 0xE2, CHR 0x80, CHR 0x85],
      [CHR 0xE2, CHR 0x80, CHR 0x86], [CHR 0xE2, CHR 0x80, CHR 0x87],
      [CHR 0xE2, CHR 0x80, CHR 0x88], [CHR 0xE2, CHR 0x80, CHR 0x89],
      [CHR 0xE2, CHR 0x80, CHR 0x8A], [CHR 0xE2, CHR 0x80, CHR 0xA8],
      [CHR 0xE2, CHR 0x80, CHR 0xA9], [CHR 0xE2, CHR 0x80, CHR 0xAF],
      [CHR 0xE2, CHR 0x81, CHR 0x9F], [CHR 0xE3, CHR 0x80, CHR 0x80],
      [CHR 0xEF, CHR 0xBB, CHR 0xBF]]"

text \<open>Removing, again and again, an entry of the table that the string starts with.\<close>

function strip :: "string list \<Rightarrow> string \<Rightarrow> string" where
  "strip tbl s =
     (case List.find (\<lambda>w. w \<noteq> [] \<and> prefix w s) tbl of
        None \<Rightarrow> s
      | Some w \<Rightarrow> strip tbl (drop (length w) s))"
  by pat_completeness auto
termination
  by (relation "measure (\<lambda>(tbl, s). length s)") (auto simp: find_Some_iff prefix_def)

declare strip.simps [simp del]

definition trimStart :: "string \<Rightarrow> string" where
  "trimStart s = strip white_space s"

definition trimEnd :: "string \<Rightarrow> string" where
  "trimEnd s = rev (strip (map rev white_space) (rev s))"

definition trim :: "string \<Rightarrow> string" where
  "trim s = trimEnd (trimStart s)"

datatype js_error = TypeError

record preview =
  headers :: "string list"
  dataRows :: "string list"

text \<open>
  \<^verbatim>\<open>DataPreview\<close>: nothing is rendered (\<open>None\<close>) for the empty text; otherwise the
  header cells and the rows of the snippet. \<^verbatim>\<open>rows[0].split\<close> would throw a TypeError on
  an empty array of rows. Each row of the snippet is rendered as \<^verbatim>\<open>row.split(',')\<close>.
\<close>

definition DataPreview :: "string \<Rightarrow> js_error + preview option" where
  "DataPreview csvData =
     (if csvData = [] then Inr None
      else let rows = split_js (CHR 0x0A) (trim csvData) in
        (case rows of
           [] \<Rightarrow> Inl TypeError
         | r0 # _ \<Rightarrow>
             Inr (Some \<lparr>headers = split_js CHR '','' r0, dataRows = slice 1 11 rows\<rparr>)))"

definition cells :: "preview \<Rightarrow> string list list" where
  "cells p = map (split_js CHR '','') (dataRows p)"

text \<open>Lines put together with the separator between them: the text that splits into them.\<close>

fun join_js :: "'a \<Rightarrow> 'a list list \<Rightarrow> 'a list" where
  "join_js c [] = []"
| "join_js c [l] = l"
| "join_js c (l # ls) = l @ c # join_js c ls"

section \<open>Bound fields\<close>

lemma map_of_update_other: "k \<noteq> name \<Longrightarrow> map_of (AList.update name v al) k = map_of al k"
  by (simp add: update_conv')

lemma map_of_update_same: "map_of (AList.update name v al) name = Some v"
  by (simp add: update_conv')

text \<open>
  The handler on every string. The empty string stores the unset value in the named field
  and leaves the other fields as they were; a string that \<^verbatim>\<open>parseFloat\<close> reads as a
  number stores that number in the named field; for any other string the handler makes
  no call of \<^verbatim>\<open>onBoundsChange\<close>.
\<close>

lemma handleBoundsChange_cases:
  "(value = [] \<longrightarrow>
      (\<exists>b. handleBoundsChange pf bnds name value = Some b
         \<and> map_of b name = Some (Str [])
         \<and> map_of b name \<noteq> Some (Num (Fin 0))
         \<and> (\<forall>k. k \<noteq> name \<longrightarrow> map_of b k = map_of (spread bnds) k)))
   \<and> (value \<noteq> [] \<and> isNaN (pf value) \<longrightarrow>
        handleBoundsChange pf bnds name value = None
        \<and> bounds_after_edit pf bnds name value = bnds)
   \<and> (value \<noteq> [] \<and> \<not> isNaN (pf value) \<longrightarrow>
      (\<exists>b. handleBoundsChange pf bnds name value = Some b
         \<and> bounds_after_edit pf bnds name value = Some b
         \<and> map_of b name = Some (Num (pf value))
         \<and> (\<forall>k. k \<noteq> name \<longrightarrow> map_of b k = map_of (spread bnds) k)))"
  by (simp add: handleBoundsChange_def bounds_after_edit_def Let_def
      map_of_update_other map_of_update_same)



text \<open>
  C10. A bound field that holds the number 0 is shown as the empty string: the input
  shows \<^verbatim>\<open>bounds?.field || ''\<close> and 0 is falsy. The input then shows what it shows for
  a field that holds the unset value, and what it shows when there is no bound at all.
\<close>

theorem zero_bound_displays_empty:
  "map_of b name = Some (Num (Fin 0)) \<Longrightarrow>
     input_value (Some b) name = Str []
     \<and> input_value (Some b) name = input_value (Some (AList.update name (Str []) b)) name
     \<and> input_value (Some b) name = input_value None name"
  by (simp add: input_value_def update_conv')

text \<open>
  Witness for C10: a rectangle whose north edge is the equator. The north input shows the
  empty string, the east input shows 20.
\<close>

theorem zero_bound_displays_empty_witness:
  "map_of (rect_bounds (Fin 0) (Fin (-10)) (Fin 20) (Fin 5)) ''north'' = Some (Num (Fin 0))
   \<and> input_value (Some (rect_bounds (Fin 0) (Fin (-10)) (Fin 20) (Fin 5))) ''north'' = Str []
   \<and> input_value (Some (rect_bounds (Fin 0) (Fin (-10)) (Fin 20) (Fin 5))) ''east'' = Num (Fin 20)"
  using zero_bound_displays_empty [of "rect_bounds (Fin 0) (Fin (-10)) (Fin 20) (Fin 5)" "''north''"]
  by (simp add: rect_bounds_def input_value_def)

section \<open>Submitting\<close>

lemmas app_defs = handleSubmit_def onmessage_def onerror_def onopen_def ws_close_def
  bounds_after_edit_def handleChange_def handleTypeChange_def

text \<open>
  C1 (amended). A submit with no bound at all (\<^verbatim>\<open>bounds\<close> is null) opens no channel,
  shows the alert and leaves the state as it was: not loading more than before, the same
  logs, the same preview. That is the only check: the list of sockets stays as it was
  exactly when the bound is null, so every bound object, whatever its fields hold, opens a
  channel.
\<close>

theorem handleSubmit_null_bounds:
  "(bounds w = None \<longrightarrow>
      handleSubmit w = w\<lparr>alerts := alerts w @ [''Please select an area on the map first'']\<rparr>
      \<and> sockets (handleSubmit w) = sockets w
      \<and> loading (handleSubmit w) = loading w
      \<and> logs (handleSubmit w) = logs w
      \<and> previewData (handleSubmit w) = previewData w)
   \<and> (sockets (handleSubmit w) = sockets w \<longleftrightarrow> bounds w = None)
   \<and> step pf w Submit = handleSubmit w"
  by (auto simp: handleSubmit_def split: option.splits)

text \<open>Witness for C1: the first click, before any area is selected.\<close>

theorem handleSubmit_null_bounds_witness:
  "bounds initial = None
   \<and> handleSubmit initial = initial\<lparr>alerts := [''Please select an area on the map first'']\<rparr>
   \<and> sockets (handleSubmit initial) = []
   \<and> \<not> loading (handleSubmit initial)"
  using handleSubmit_null_bounds [of initial]
  by (simp add: initial_def)

text \<open>
  Counterexample to C1 as stated. First, the user clears the north input before any area
  is selected, so the bound is the object with the one field north, unset; the map would
  not draw it. The click opens a channel, shows no alert and starts loading. Second, the
  user selects the rectangle 5, 1, 8, 2 and types 0 into the north input, so north is
  below south; the click opens a channel all the same.
\<close>

theorem submit_unset_bound_opens_channel_counterexample:
  "\<not> draws_rectangle (bounds (run parseFloat_sample initial [BoundsInput ''north'' []]))
   \<and> bounds (run parseFloat_sample initial [BoundsInput ''north'' []]) = Some [(''north'', Str [])]
   \<and> length (sockets (run parseFloat_sample initial [BoundsInput ''north'' [], Submit])) = 1
   \<and> loading (run parseFloat_sample initial [BoundsInput ''north'' [], Submit])
   \<and> alerts (run parseFloat_sample initial [BoundsInput ''north'' [], Submit]) = []
   \<and> \<not> draws_rectangle (bounds (run parseFloat_sample initial
        [MapCreated ''rectangle'' (Fin 5) (Fin 1) (Fin 8) (Fin 2), BoundsInput ''north'' ''0'']))
   \<and> length (sockets (run parseFloat_sample initial
        [MapCreated ''rectangle'' (Fin 5) (Fin 1) (Fin 8) (Fin 2), BoundsInput ''north'' ''0'',
         Submit])) = 1
   \<and> alerts (run parseFloat_sample initial
        [MapCreated ''rectangle'' (Fin 5) (Fin 1) (Fin 8) (Fin 2), BoundsInput ''north'' ''0'',
         Submit]) = []"
  by (simp add: initial_def app_defs handleBoundsChange_def spread_def draws_rectangle_def
      onCreate_def rect_bounds_def parseFloat_sample_def isNaN_def)

text \<open>
  C2 (amended). A submit with a bound appends one connecting socket and touches no socket
  made before: none is closed, so there is one more live socket than before and the
  number of calls of \<^verbatim>\<open>close\<close> is what it was.
\<close>

theorem handleSubmit_keeps_prior_channels:
  "bounds w = Some b \<Longrightarrow>
     sockets (handleSubmit w) =
       sockets w @ [\<lparr>readyState = CONNECTING, req_bounds = b, req_params = params w,
                     sent = [], closes = 0\<rparr>]
     \<and> (\<forall>i < length (sockets w). sockets (handleSubmit w) ! i = sockets w ! i)
     \<and> length (filter live (sockets (handleSubmit w))) = length (filter live (sockets w)) + 1
     \<and> sum_list (map closes (sockets (handleSubmit w))) = sum_list (map closes (sockets w))"
  by (simp add: handleSubmit_def nth_append live_def)

text \<open>Witness for C2: a second click while the first session is running.\<close>

theorem handleSubmit_keeps_prior_channels_witness:
  "bounds (run parseFloat_sample initial
      [MapCreated ''rectangle'' (Fin 5) (Fin 1) (Fin 8) (Fin 2), Submit, WsOpen 0])
     = Some (rect_bounds (Fin 5) (Fin 1) (Fin 8) (Fin 2))
   \<and> length (filter live (sockets (handleSubmit (run parseFloat_sample initial
        [MapCreated ''rectangle'' (Fin 5) (Fin 1) (Fin 8) (Fin 2), Submit, WsOpen 0])))) = 2"
  using handleSubmit_keeps_prior_channels [of
      "run parseFloat_sample initial
        [MapCreated ''rectangle'' (Fin 5) (Fin 1) (Fin 8) (Fin 2), Submit, WsOpen 0]"
      "rect_bounds (Fin 5) (Fin 1) (Fin 8) (Fin 2)"]
  by (simp add: initial_def app_defs onCreate_def live_def)

text \<open>
  Counterexample to C2 as stated: after select, click, open, click there are two sockets,
  the first still open and the second connecting, and \<^verbatim>\<open>close\<close> was called on neither.
\<close>

theorem resubmit_two_live_channels_counterexample:
  "map readyState (sockets (run parseFloat_sample initial
      [MapCreated ''rectangle'' (Fin 5) (Fin 1) (Fin 8) (Fin 2), Submit, WsOpen 0, Submit]))
     = [OPEN, CONNECTING]
   \<and> map closes (sockets (run parseFloat_sample initial
      [MapCreated ''rectangle'' (Fin 5) (Fin 1) (Fin 8) (Fin 2), Submit, WsOpen 0, Submit]))
     = [0, 0]"
  by (simp add: initial_def app_defs onCreate_def)

section \<open>Progress and completion\<close>

lemma run_logs:
  "i < length (sockets w) \<Longrightarrow> readyState (sockets w ! i) = OPEN \<Longrightarrow>
     run pf w (map (\<lambda>m. WsMessage i (Log m)) ms) = w\<lparr>logs := logs w @ ms\<rparr>"
proof (induction ms arbitrary: w)
  case Nil
  then show ?case by simp
next
  case (Cons m ms)
  let ?w = "w\<lparr>logs := logs w @ [m]\<rparr>"
  have s: "step pf w (WsMessage i (Log m)) = ?w"
    using Cons.prems by (simp add: onmessage_def)
  have "run pf ?w (map (\<lambda>m. WsMessage i (Log m)) ms) = ?w\<lparr>logs := logs ?w @ ms\<rparr>"
    by (rule Cons.IH) (use Cons.prems in simp_all)
  with s show ?case by simp
qed

text \<open>
  C3 (amended). The click sets the logs to the one line
  \<^verbatim>\<open>Initializing connection...\<close> and starts loading; the opening of the channel leaves
  the logs as they are. Every log message is appended at the end, so after the messages
  \<open>ms\<close>, whatever they are and however many, the logs are that first line followed by
  \<open>ms\<close> in the order of arrival. The complete message leaves the logs as they are, ends
  loading and stores the payload for the preview.
\<close>

theorem session_logs_in_arrival_order:
  fixes pf :: "string \<Rightarrow> jsnum" and w :: app and ms :: "string list"
    and csv :: string and fname :: "string option"
  assumes "bounds w = Some b" and "i = length (sockets w)"
  defines "w1 \<equiv> step pf w Submit"
  defines "w2 \<equiv> step pf w1 (WsOpen i)"
  defines "w3 \<equiv> run pf w2 (map (\<lambda>m. WsMessage i (Log m)) ms)"
  defines "w4 \<equiv> step pf w3 (WsMessage i (Complete csv fname))"
  shows "logs w1 = [''Initializing connection...''] \<and> loading w1
       \<and> logs w2 = [''Initializing connection...''] \<and> loading w2
       \<and> readyState (sockets w2 ! i) = OPEN
       \<and> logs w3 = ''Initializing connection...'' # ms \<and> loading w3
       \<and> logs w4 = ''Initializing connection...'' # ms \<and> \<not> loading w4
       \<and> previewData w4 = Some csv"
proof -
  have w1: "w1 = w\<lparr>loading := True, previewData := None, logs := [''Initializing connection...''],
            sockets := sockets w @
              [\<lparr>readyState = CONNECTING, req_bounds = b, req_params = params w,
                sent = [], closes = 0\<rparr>]\<rparr>"
    using assms(1) by (simp add: w1_def handleSubmit_def)
  have l1: "i < length (sockets w1)" "readyState (sockets w1 ! i) = CONNECTING"
    by (simp_all add: w1 assms(2))
  have w2: "w2 = w1\<lparr>sockets := (sockets w1)[i := onopen ((sockets w1 ! i)\<lparr>readyState := OPEN\<rparr>)]\<rparr>"
    using l1 by (simp add: w2_def)
  have l2: "i < length (sockets w2)" "readyState (sockets w2 ! i) = OPEN"
    using l1 by (simp_all add: w2 onopen_def)
  have w3: "w3 = w2\<lparr>logs := logs w2 @ ms\<rparr>"
    unfolding w3_def by (rule run_logs [OF l2])
  have l3: "i < length (sockets w3)" "readyState (sockets w3 ! i) = OPEN"
    using l2 by (simp_all add: w3)
  have w4: "w4 = onmessage i (Complete csv fname) w3"
    using l3 by (simp add: w4_def)
  show ?thesis
    using l2 by (simp add: w4 w3 w2 w1 onmessage_def)
qed

text \<open>
  Witness for C3: a session with the log messages a, b, a. The repeated message is kept
  and the order is that of arrival.
\<close>

theorem session_logs_in_arrival_order_witness:
  "bounds (initial\<lparr>bounds := Some (rect_bounds (Fin 5) (Fin 1) (Fin 8) (Fin 2))\<rparr>)
     = Some (rect_bounds (Fin 5) (Fin 1) (Fin 8) (Fin 2))
   \<and> logs (run parseFloat_sample
        (initial\<lparr>bounds := Some (rect_bounds (Fin 5) (Fin 1) (Fin 8) (Fin 2))\<rparr>)
        [Submit, WsOpen 0, WsMessage 0 (Log ''a''), WsMessage 0 (Log ''b''),
         WsMessage 0 (Log ''a''), WsMessage 0 (Complete ''x,y'' (Some ''f.csv''))])
     = [''Initializing connection...'', ''a'', ''b'', ''a'']"
  using session_logs_in_arrival_order [of
      "initial\<lparr>bounds := Some (rect_bounds (Fin 5) (Fin 1) (Fin 8) (Fin 2))\<rparr>"
      "rect_bounds (Fin 5) (Fin 1) (Fin 8) (Fin 2)" 0 parseFloat_sample
      "[''a'', ''b'', ''a'']" "''x,y''" "Some ''f.csv''"]
  by (simp add: initial_def app_defs)

text \<open>
  Counterexample to C3 as stated: when the channel has opened the logs are not empty, and
  after log, log, log, complete the logs have four lines, not three.
\<close>

theorem session_logs_counterexample:
  "logs (run parseFloat_sample initial
      [MapCreated ''rectangle'' (Fin 5) (Fin 1) (Fin 8) (Fin 2), Submit, WsOpen 0]) \<noteq> []
   \<and> length (logs (run parseFloat_sample initial
      [MapCreated ''rectangle'' (Fin 5) (Fin 1) (Fin 8) (Fin 2), Submit, WsOpen 0,
       WsMessage 0 (Log ''a''), WsMessage 0 (Log ''b''), WsMessage 0 (Log ''c''),
       WsMessage 0 (Complete ''x,y'' (Some ''f.csv''))])) = 4"
  by (simp add: initial_def app_defs onCreate_def)

section \<open>Failure\<close>

text \<open>
  No event but a click makes a socket or starts loading, and a socket that is closing or
  closed stays so, with the same number of calls of \<^verbatim>\<open>close\<close>.
\<close>

lemma step_length: "e \<noteq> Submit \<Longrightarrow> length (sockets (step pf w e)) = length (sockets w)"
  by (cases e) (simp_all add: onmessage_def onerror_def split: option.splits inbound.splits)

lemma step_loading: "e \<noteq> Submit \<Longrightarrow> \<not> loading w \<Longrightarrow> \<not> loading (step pf w e)"
  by (cases e) (simp_all add: onmessage_def onerror_def split: option.splits inbound.splits)

lemma step_finished:
  "i < length (sockets w) \<Longrightarrow> finished (sockets w ! i) \<Longrightarrow>
     finished (sockets (step pf w e) ! i)
     \<and> closes (sockets (step pf w e) ! i) = closes (sockets w ! i)"
  by (cases e)
     (auto simp: finished_def onmessage_def onerror_def handleSubmit_def onopen_def
        nth_list_update nth_append split: option.splits inbound.splits)

lemma run_quiet:
  "Submit \<notin> set es \<Longrightarrow> i < length (sockets w) \<Longrightarrow> finished (sockets w ! i) \<Longrightarrow>
   \<not> loading w \<Longrightarrow>
     \<not> loading (run pf w es) \<and> length (sockets (run pf w es)) = length (sockets w)
     \<and> finished (sockets (run pf w es) ! i)
     \<and> closes (sockets (run pf w es) ! i) = closes (sockets w ! i)"
proof (induction es arbitrary: w)
  case Nil
  then show ?case by simp
next
  case (Cons e es)
  have ne: "e \<noteq> Submit" using Cons.prems(1) by auto
  let ?w = "step pf w e"
  have a: "i < length (sockets ?w)" using step_length [OF ne] Cons.prems(2) by simp
  have b: "finished (sockets ?w ! i)" "closes (sockets ?w ! i) = closes (sockets w ! i)"
    using step_finished [OF Cons.prems(2,3)] by simp_all
  have c: "\<not> loading ?w" using step_loading [OF ne Cons.prems(4)] .
  have "Submit \<notin> set es" using Cons.prems(1) by simp
  from Cons.IH [OF this a b(1) c] show ?case
    using b(2) step_length [OF ne] by simp
qed

text \<open>
  C6. An error message on an open socket ends loading, shows the alert \<^verbatim>\<open>Error: \<close>
  followed by the message of the service as it came, and calls \<^verbatim>\<open>close\<close> once on that
  socket and on no other. Afterwards, whatever happens short of a new click, the
  component never loads again, makes no new socket (no retry) and never calls
  \<^verbatim>\<open>close\<close> on that socket again.
\<close>

theorem error_event_fails_session:
  fixes pf :: "string \<Rightarrow> jsnum" and w :: app and i :: nat and message :: string
  assumes "i < length (sockets w)" and "readyState (sockets w ! i) = OPEN"
  defines "w' \<equiv> step pf w (WsMessage i (Error message))"
  shows "\<not> loading w'
       \<and> alerts w' = alerts w @ [''Error: '' @ message]
       \<and> length (sockets w') = length (sockets w)
       \<and> readyState (sockets w' ! i) = CLOSING
       \<and> closes (sockets w' ! i) = closes (sockets w ! i) + 1
       \<and> (\<forall>j. j \<noteq> i \<longrightarrow> sockets w' ! j = sockets w ! j)
       \<and> sum_list (map closes (sockets w')) = sum_list (map closes (sockets w)) + 1
       \<and> (\<forall>es. Submit \<notin> set es \<longrightarrow>
             \<not> loading (run pf w' es)
             \<and> length (sockets (run pf w' es)) = length (sockets w)
             \<and> finished (sockets (run pf w' es) ! i)
             \<and> closes (sockets (run pf w' es) ! i) = closes (sockets w ! i) + 1)"
proof -
  have w': "w' = w\<lparr>alerts := alerts w @ [''Error: '' @ message], loading := False,
            sockets := (sockets w)[i := ws_close (sockets w ! i)]\<rparr>"
    using assms(1,2) by (simp add: w'_def onmessage_def)
  have first: "\<not> loading w'" "alerts w' = alerts w @ [''Error: '' @ message]"
    "length (sockets w') = length (sockets w)"
    "readyState (sockets w' ! i) = CLOSING"
    "closes (sockets w' ! i) = closes (sockets w ! i) + 1"
    "\<forall>j. j \<noteq> i \<longrightarrow> sockets w' ! j = sockets w ! j"
    using assms(1,2) by (simp_all add: w' ws_close_def)
  have sum: "sum_list (map closes (sockets w')) = sum_list (map closes (sockets w)) + 1"
    using assms(1) by (simp add: w' ws_close_def map_update sum_list_update)
  have fin: "i < length (sockets w')" "finished (sockets w' ! i)"
    using first assms(1) by (simp_all add: finished_def)
  have later: "\<not> loading (run pf w' es)
             \<and> length (sockets (run pf w' es)) = length (sockets w)
             \<and> finished (sockets (run pf w' es) ! i)
             \<and> closes (sockets (run pf w' es) ! i) = closes (sockets w ! i) + 1"
    if "Submit \<notin> set es" for es
    using run_quiet [OF that fin first(1), of pf] first by simp
  show ?thesis using first sum later by blast
qed

text \<open>
  Witness for C6: a running session receives an error; a late log message, a transport
  error and the close event follow.
\<close>

theorem error_event_fails_session_witness:
  "0 < length (sockets (run parseFloat_sample initial
        [MapCreated ''rectangle'' (Fin 5) (Fin 1) (Fin 8) (Fin 2), Submit, WsOpen 0]))
   \<and> readyState (sockets (run parseFloat_sample initial
        [MapCreated ''rectangle'' (Fin 5) (Fin 1) (Fin 8) (Fin 2), Submit, WsOpen 0]) ! 0) = OPEN
   \<and> Submit \<notin> set [WsMessage 0 (Log ''late''), WsError 0, WsClose 0]
   \<and> alerts (run parseFloat_sample initial
        [MapCreated ''rectangle'' (Fin 5) (Fin 1) (Fin 8) (Fin 2), Submit, WsOpen 0,
         WsMessage 0 (Error ''no profiles found'')]) = [''Error: no profiles found'']
   \<and> \<not> loading (run parseFloat_sample initial
        [MapCreated ''rectangle'' (Fin 5) (Fin 1) (Fin 8) (Fin 2), Submit, WsOpen 0,
         WsMessage 0 (Error ''no profiles found''),
         WsMessage 0 (Log ''late''), WsError 0, WsClose 0])
   \<and> map closes (sockets (run parseFloat_sample initial
        [MapCreated ''rectangle'' (Fin 5) (Fin 1) (Fin 8) (Fin 2), Submit, WsOpen 0,
         WsMessage 0 (Error ''no profiles found''),
         WsMessage 0 (Log ''late''), WsError 0, WsClose 0])) = [1]"
  using error_event_fails_session [where i = 0 and pf = parseFloat_sample
      and message = "''no profiles found''"
      and w = "run parseFloat_sample initial
        [MapCreated ''rectangle'' (Fin 5) (Fin 1) (Fin 8) (Fin 2), Submit, WsOpen 0]"]
  by (simp add: initial_def app_defs onCreate_def)

text \<open>
  A transport error on a socket that is not closed yet ends loading and shows the alert
  \<^verbatim>\<open>Connection failed.\<close>
\<close>

lemma transport_error_clears_loading:
  "i < length (sockets w) \<Longrightarrow> readyState (sockets w ! i) \<noteq> CLOSED \<Longrightarrow>
     \<not> loading (step pf w (WsError i))
     \<and> alerts (step pf w (WsError i)) = alerts w @ [''Connection failed.'']
     \<and> readyState (sockets (step pf w (WsError i)) ! i) = CLOSED"
  by (simp add: onerror_def)

text \<open>
  C7, the case that the code misses. The close event runs no handler: loading and the
  alerts stay as they are. So a session whose channel closes after a log message and
  before any complete or error message, or before it has opened, keeps loading with no
  alert shown, although its socket is closed.
\<close>

theorem close_event_keeps_loading:
  "loading (step pf w (WsClose i)) = loading w
   \<and> alerts (step pf w (WsClose i)) = alerts w
   \<and> loading (run parseFloat_sample initial
        [MapCreated ''rectangle'' (Fin 5) (Fin 1) (Fin 8) (Fin 2), Submit, WsOpen 0,
         WsMessage 0 (Log ''searching''), WsClose 0])
   \<and> alerts (run parseFloat_sample initial
        [MapCreated ''rectangle'' (Fin 5) (Fin 1) (Fin 8) (Fin 2), Submit, WsOpen 0,
         WsMessage 0 (Log ''searching''), WsClose 0]) = []
   \<and> map readyState (sockets (run parseFloat_sample initial
        [MapCreated ''rectangle'' (Fin 5) (Fin 1) (Fin 8) (Fin 2), Submit, WsOpen 0,
         WsMessage 0 (Log ''searching''), WsClose 0])) = [CLOSED]
   \<and> loading (run parseFloat_sample initial
        [MapCreated ''rectangle'' (Fin 5) (Fin 1) (Fin 8) (Fin 2), Submit, WsClose 0])"
  by (simp add: initial_def app_defs onCreate_def)

section \<open>The download\<close>

text \<open>
  C9 (amended). A complete message on an open socket starts one download: its content is
  the three bytes of the byte-order mark followed by the payload, its type is
  \<^verbatim>\<open>text/csv;charset=utf-8;\<close>, and its name is the filename that the service gave. The
  download does not depend on \<^verbatim>\<open>params\<close>: the name is never made from the category.
\<close>

theorem complete_event_download:
  fixes pf :: "string \<Rightarrow> jsnum" and w :: app and i :: nat and csv :: string
    and fname :: "string option"
  assumes "i < length (sockets w)" and "readyState (sockets w ! i) = OPEN"
  defines "w' \<equiv> step pf w (WsMessage i (Complete csv fname))"
  shows "length (downloads w') = length (downloads w) + 1
       \<and> butlast (downloads w') = downloads w
       \<and> content (last (downloads w')) = [CHR 0xEF, CHR 0xBB, CHR 0xBF] @ csv
       \<and> mime (last (downloads w')) = ''text/csv;charset=utf-8;''
       \<and> (\<forall>f. fname = Some f \<longrightarrow> filename (last (downloads w')) = f)
       \<and> (\<forall>p. downloads (step pf (w\<lparr>params := p\<rparr>) (WsMessage i (Complete csv fname)))
               = downloads w')"
  using assms(1,2) by (simp add: w'_def onmessage_def BOM_def)

text \<open>Witness for C9: the payload \<^verbatim>\<open>A,B\<close> with the filename \<^verbatim>\<open>argo.csv\<close>.\<close>

theorem complete_event_download_witness:
  "0 < length (sockets (run parseFloat_sample initial
        [MapCreated ''rectangle'' (Fin 5) (Fin 1) (Fin 8) (Fin 2), Submit, WsOpen 0]))
   \<and> readyState (sockets (run parseFloat_sample initial
        [MapCreated ''rectangle'' (Fin 5) (Fin 1) (Fin 8) (Fin 2), Submit, WsOpen 0]) ! 0) = OPEN
   \<and> downloads (run parseFloat_sample initial
        [MapCreated ''rectangle'' (Fin 5) (Fin 1) (Fin 8) (Fin 2), Submit, WsOpen 0,
         WsMessage 0 (Complete ''A,B'' (Some ''argo.csv''))])
      = [\<lparr>content = [CHR 0xEF, CHR 0xBB, CHR 0xBF, CHR ''A'', CHR '','', CHR ''B''],
          mime = ''text/csv;charset=utf-8;'', filename = ''argo.csv''\<rparr>]"
  using complete_event_download [where i = 0 and pf = parseFloat_sample
      and csv = "''A,B''" and fname = "Some ''argo.csv''"
      and w = "run parseFloat_sample initial
        [MapCreated ''rectangle'' (Fin 5) (Fin 1) (Fin 8) (Fin 2), Submit, WsOpen 0]"]
  by (simp add: initial_def app_defs onCreate_def BOM_def)

text \<open>
  Counterexample to C9 as stated: a complete message without filename gives the download
  name \<^verbatim>\<open>undefined\<close>, for the category core and for the category bio alike. A name made
  from category and time, as the HTTP variant makes it, reads
  \<^verbatim>\<open>argo_core_data_1700000000000.csv\<close>.
\<close>

theorem missing_filename_not_synthesized_counterexample:
  "map filename (downloads (run parseFloat_sample initial
        [MapCreated ''rectangle'' (Fin 5) (Fin 1) (Fin 8) (Fin 2), Submit, WsOpen 0,
         WsMessage 0 (Complete ''A,B'' None)])) = [''undefined'']
   \<and> map filename (downloads (run parseFloat_sample initial
        [MapCreated ''rectangle'' (Fin 5) (Fin 1) (Fin 8) (Fin 2), TypeBio, Submit, WsOpen 0,
         WsMessage 0 (Complete ''A,B'' None)])) = [''undefined'']
   \<and> http_download_name ''core'' 1700000000000 = ''argo_core_data_1700000000000.csv''"
  by (simp add: initial_def app_defs onCreate_def http_download_name_def nth_Cons')

section \<open>The request\<close>

text \<open>
  Every state that the component reaches from its initial state satisfies \<open>app_inv\<close>.
\<close>

lemma has_fields_update: "has_fields p \<Longrightarrow> has_fields (AList.update k v p)"
  by (simp add: has_fields_def update_conv')

lemma has_fields_initial: "has_fields initial_params"
  by (simp add: has_fields_def initial_params_def)

lemma list_all_update: "list_all P xs \<Longrightarrow> P y \<Longrightarrow> list_all P (xs[i := y])"
  using set_update_subset_insert [of xs i y] by (auto simp: list_all_iff)

lemma list_all_nth: "list_all P xs \<Longrightarrow> i < length xs \<Longrightarrow> P (xs ! i)"
  by (simp add: list_all_length)

lemma sock_inv_closed: "sock_inv ws \<Longrightarrow> sock_inv (ws\<lparr>readyState := CLOSED\<rparr>)"
  by (auto simp: sock_inv_def request_def)

lemma sock_inv_close: "sock_inv ws \<Longrightarrow> readyState ws = OPEN \<Longrightarrow> sock_inv (ws_close ws)"
  by (auto simp: sock_inv_def request_def ws_close_def)

lemma sock_inv_open:
  "sock_inv ws \<Longrightarrow> readyState ws = CONNECTING \<Longrightarrow> sock_inv (onopen (ws\<lparr>readyState := OPEN\<rparr>))"
  by (auto simp: sock_inv_def request_def onopen_def)

lemma app_inv_initial: "app_inv initial"
  by (simp add: app_inv_def initial_def has_fields_initial)

lemma app_inv_step: "app_inv w \<Longrightarrow> app_inv (step pf w e)"
proof (cases e)
  case Submit
  assume "app_inv w"
  then show ?thesis
    by (auto simp: Submit app_inv_def handleSubmit_def sock_inv_def split: option.splits)
next
  case (WsOpen i)
  assume "app_inv w"
  then show ?thesis
    by (auto simp: WsOpen app_inv_def intro!: list_all_update sock_inv_open dest: list_all_nth)
next
  case (WsMessage i d)
  assume "app_inv w"
  then show ?thesis
    by (cases d)
       (auto simp: WsMessage app_inv_def onmessage_def
          intro!: list_all_update sock_inv_close dest: list_all_nth)
next
  case (WsError i)
  assume "app_inv w"
  then show ?thesis
    by (auto simp: WsError app_inv_def onerror_def
          intro!: list_all_update sock_inv_closed dest: list_all_nth)
next
  case (WsClose i)
  assume "app_inv w"
  then show ?thesis
    by (auto simp: WsClose app_inv_def intro!: list_all_update sock_inv_closed dest: list_all_nth)
qed (auto simp: app_inv_def handleChange_def handleTypeChange_def has_fields_update
       split: option.splits)

lemma app_inv_run: "app_inv w \<Longrightarrow> app_inv (run pf w es)"
  by (induction es arbitrary: w) (simp_all add: app_inv_step)

lemma step_sent:
  "i < length (sockets w) \<Longrightarrow>
     req_bounds (sockets (step pf w e) ! i) = req_bounds (sockets w ! i)
     \<and> req_params (sockets (step pf w e) ! i) = req_params (sockets w ! i)
     \<and> (e \<noteq> WsOpen i \<longrightarrow> sent (sockets (step pf w e) ! i) = sent (sockets w ! i))"
  by (cases e)
     (auto simp: onmessage_def onerror_def handleSubmit_def onopen_def ws_close_def
        nth_list_update nth_append split: option.splits inbound.splits)

text \<open>
  In every state that the component can reach, every socket has sent at most one message:
  none while it connects, exactly one once it is open, and that message is the request of
  the socket. The message goes out in the step in which the channel opens.
\<close>

lemma reachable_socket_sends_once:
  fixes pf :: "string \<Rightarrow> jsnum" and es :: "event list" and i :: nat
  assumes "i < length (sockets (run pf initial es))"
  defines "w \<equiv> run pf initial es"
  defines "ws \<equiv> sockets (run pf initial es) ! i"
  shows "length (sent ws) \<le> 1
       \<and> (readyState ws = CONNECTING \<longrightarrow> sent ws = [])
       \<and> (readyState ws = OPEN \<longrightarrow> length (sent ws) = 1)
       \<and> (\<forall>m \<in> set (sent ws).
             m = Obj [(''bounds'', Obj (req_bounds ws)), (''params'', Obj (req_params ws))])
       \<and> (\<forall>k \<in> set [''startDate'', ''endDate'', ''minDepth'', ''maxDepth'', ''type'',
                       ''variables'']. map_of (req_params ws) k \<noteq> None)
       \<and> (readyState ws = CONNECTING \<longrightarrow>
             sent (sockets (step pf w (WsOpen i)) ! i)
               = [Obj [(''bounds'', Obj (req_bounds ws)), (''params'', Obj (req_params ws))]])
       \<and> (\<forall>e. e \<noteq> WsOpen i \<longrightarrow> sent (sockets (step pf w e) ! i) = sent ws)
       \<and> (\<forall>e. req_bounds (sockets (step pf w e) ! i) = req_bounds ws
              \<and> req_params (sockets (step pf w e) ! i) = req_params ws)"
proof -
  have "app_inv w"
    unfolding w_def by (rule app_inv_run [OF app_inv_initial])
  then have inv: "sock_inv ws"
    using assms(1) by (simp add: app_inv_def w_def ws_def list_all_length)
  have i: "i < length (sockets w)" using assms(1) by (simp add: w_def)
  have ws: "ws = sockets w ! i" by (simp add: ws_def w_def)
  have a: "length (sent ws) \<le> 1" "readyState ws = CONNECTING \<longrightarrow> sent ws = []"
    "readyState ws = OPEN \<longrightarrow> length (sent ws) = 1"
    "\<forall>m \<in> set (sent ws).
       m = Obj [(''bounds'', Obj (req_bounds ws)), (''params'', Obj (req_params ws))]"
    using inv by (auto simp: sock_inv_def request_def)
  have b: "\<forall>k \<in> set [''startDate'', ''endDate'', ''minDepth'', ''maxDepth'', ''type'',
                       ''variables'']. map_of (req_params ws) k \<noteq> None"
    using inv by (simp add: sock_inv_def has_fields_def)
  have c: "readyState ws = CONNECTING \<longrightarrow>
             sent (sockets (step pf w (WsOpen i)) ! i)
               = [Obj [(''bounds'', Obj (req_bounds ws)), (''params'', Obj (req_params ws))]]"
    using i a(2) by (simp add: ws onopen_def request_def)
  have d: "\<forall>e. e \<noteq> WsOpen i \<longrightarrow> sent (sockets (step pf w e) ! i) = sent ws"
    "\<forall>e. req_bounds (sockets (step pf w e) ! i) = req_bounds ws
              \<and> req_params (sockets (step pf w e) ! i) = req_params ws"
    using step_sent [OF i] by (simp_all add: ws)
  show ?thesis using a b c d by blast
qed

text \<open>
  The events that the client can receive keep the shape of the bound and of the
  parameters, and no event changes what a socket has captured.
\<close>

lemma run_append: "run pf w (es @ fs) = run pf (run pf w es) fs"
  by (induction es arbitrary: w) simp_all

lemma list_all_alist_update:
  "list_all P al \<Longrightarrow> P (k, v) \<Longrightarrow> list_all P (AList.update k v al)"
  by (induction al) auto

lemma bounds_shape_update:
  "bounds_shape b \<Longrightarrow> k \<in> set [''north'', ''south'', ''east'', ''west''] \<Longrightarrow> bound_value v \<Longrightarrow>
     bounds_shape (AList.update k v b)"
  unfolding bounds_shape_def
  by (intro conjI list_all_alist_update) (simp_all add: distinct_update)

lemma bounds_shape_rect:
  "is_fin n \<Longrightarrow> is_fin s \<Longrightarrow> is_fin e \<Longrightarrow> is_fin w \<Longrightarrow> bounds_shape (rect_bounds n s e w)"
  by (simp add: bounds_shape_def rect_bounds_def bound_value_def)

lemma bounds_shape_spread:
  "(case bnds of None \<Rightarrow> True | Some b \<Rightarrow> bounds_shape b) \<Longrightarrow> bounds_shape (spread bnds)"
  by (cases bnds) (simp_all add: spread_def bounds_shape_def)

lemma bounds_shape_edit:
  assumes "case bnds of None \<Rightarrow> True | Some b \<Rightarrow> bounds_shape b"
    and "name \<in> set [''north'', ''south'', ''west'', ''east'']"
    and "number_input_value pf value"
  shows "case bounds_after_edit pf bnds name value of None \<Rightarrow> True | Some b \<Rightarrow> bounds_shape b"
proof -
  have n: "name \<in> set [''north'', ''south'', ''east'', ''west'']"
    using assms(2) by auto
  have s: "bounds_shape (spread bnds)" by (rule bounds_shape_spread [OF assms(1)])
  show ?thesis
  proof (cases "value = []")
    case True
    then show ?thesis
      using bounds_shape_update [OF s n, of "Str []"]
      by (simp add: bounds_after_edit_def handleBoundsChange_def bound_value_def)
  next
    case False
    then have f: "is_fin (pf value)" using assms(3) by (simp add: number_input_value_def)
    then have "\<not> isNaN (pf value)" by (auto simp: is_fin_def isNaN_def)
    then show ?thesis
      using False f bounds_shape_update [OF s n, of "Num (pf value)"]
      by (simp add: bounds_after_edit_def handleBoundsChange_def bound_value_def)
  qed
qed

lemma bounds_shape_onEdited:
  "list_all (\<lambda>l. case l of (n, s, e, w) \<Rightarrow> is_fin n \<and> is_fin s \<and> is_fin e \<and> is_fin w) layers \<Longrightarrow>
   (case bnds of None \<Rightarrow> True | Some b \<Rightarrow> bounds_shape b) \<Longrightarrow>
   (case onEdited layers bnds of None \<Rightarrow> True | Some b \<Rightarrow> bounds_shape b)"
  by (induction layers bnds rule: onEdited.induct) (simp_all add: bounds_shape_rect)

lemma params_shape_initial: "params_shape initial_params"
  by (simp add: params_shape_def initial_params_def date_field_def date_input_value_def
      is_digit_def two_digits_def)

lemma params_shape_type:
  "params_shape p \<Longrightarrow> t = ''core'' \<or> t = ''bio'' \<Longrightarrow> params_shape (handleTypeChange p t)"
  by (auto simp: params_shape_def handleTypeChange_def date_field_def update_keys update_conv')

lemma params_shape_date:
  "params_shape p \<Longrightarrow> name = ''startDate'' \<or> name = ''endDate'' \<Longrightarrow> date_input_value value \<Longrightarrow>
     params_shape (handleChange p name value)"
  by (auto simp: params_shape_def handleChange_def date_field_def update_keys update_conv')

lemma params_shape_depth:
  "params_shape p \<Longrightarrow> name = ''minDepth'' \<or> name = ''maxDepth'' \<Longrightarrow>
     params_shape (handleChange p name value)"
  by (auto simp: params_shape_def handleChange_def date_field_def update_keys update_conv')

lemma state_shape_initial: "state_shape initial"
  by (simp add: state_shape_def initial_def params_shape_initial)

lemma state_shape_step: "state_shape w \<Longrightarrow> deliverable pf e \<Longrightarrow> state_shape (step pf w e)"
proof (cases e)
  case (BoundsInput nm v)
  assume "state_shape w" "deliverable pf e"
  then show ?thesis
    using bounds_shape_edit [of "bounds w" nm pf v]
    by (simp add: BoundsInput state_shape_def)
next
  case (ParamInput nm v)
  assume "state_shape w" "deliverable pf e"
  then show ?thesis
    using params_shape_date [of "params w" nm v] params_shape_depth [of "params w" nm v]
    by (auto simp: ParamInput state_shape_def split: if_splits)
next
  case (MapEdited layers)
  assume "state_shape w" "deliverable pf e"
  then show ?thesis
    using bounds_shape_onEdited [of layers "bounds w"]
    by (simp add: MapEdited state_shape_def)
next
  case (WsMessage i d)
  assume "state_shape w" "deliverable pf e"
  then show ?thesis
    by (cases d) (simp_all add: WsMessage state_shape_def onmessage_def)
qed (auto simp: state_shape_def params_shape_type onCreate_def bounds_shape_rect
       handleSubmit_def onerror_def split: option.splits)

lemma state_shape_run:
  "state_shape w \<Longrightarrow> list_all (deliverable pf) es \<Longrightarrow> state_shape (run pf w es)"
  by (induction es arbitrary: w) (simp_all add: state_shape_step)

lemma step_length_mono: "length (sockets w) \<le> length (sockets (step pf w e))"
  by (cases e)
     (auto simp: onmessage_def onerror_def handleSubmit_def split: option.splits inbound.splits)

lemma run_keeps_request:
  "i < length (sockets w) \<Longrightarrow>
     i < length (sockets (run pf w es))
     \<and> req_bounds (sockets (run pf w es) ! i) = req_bounds (sockets w ! i)
     \<and> req_params (sockets (run pf w es) ! i) = req_params (sockets w ! i)"
proof (induction es arbitrary: w)
  case Nil
  then show ?case by simp
next
  case (Cons e es)
  have l: "i < length (sockets (step pf w e))"
    using Cons.prems step_length_mono [of w pf e] by simp
  show ?case
    using Cons.IH [OF l] step_sent [OF Cons.prems, of pf e] by simp
qed


lemma bound_value_cases: "bound_value v \<Longrightarrow> v = Str [] \<or> (\<exists>r. v = Num (Fin r))"
  by (cases v) (auto simp: bound_value_def is_fin_def split: jsnum.splits)

text \<open>
  C4 (amended). Take any click made with a bound, after any events that the client can
  receive, and any events after it. The socket of that click has sent nothing while it
  connects and exactly one message once it is open, sent in the step in which the channel
  opens; no other event sends anything on it. The message is the object with the two
  fields \<^verbatim>\<open>bounds\<close> and \<^verbatim>\<open>params\<close>, holding the bound and the parameters as they
  were at the click, whatever was edited afterwards. The parameters have the fields
  \<^verbatim>\<open>startDate\<close>, \<^verbatim>\<open>endDate\<close>, \<^verbatim>\<open>minDepth\<close>, \<^verbatim>\<open>maxDepth\<close>, \<^verbatim>\<open>type\<close> and
  \<^verbatim>\<open>variables\<close> and no other: the dates are strings as the date inputs give them, the
  type is core or bio, the variables are Temp and Psal. The bound has no field but north,
  south, east and west, and each field it has is a finite number or the unset value.
\<close>

theorem one_request_per_session:
  fixes pf :: "string \<Rightarrow> jsnum" and es1 es2 :: "event list" and b :: obj
  assumes "list_all (deliverable pf) es1" and "bounds (run pf initial es1) = Some b"
  defines "w \<equiv> run pf initial es1"
  defines "i \<equiv> length (sockets (run pf initial es1))"
  defines "w' \<equiv> run pf initial (es1 @ Submit # es2)"
  defines "ws \<equiv> sockets (run pf initial (es1 @ Submit # es2)) ! length (sockets (run pf initial es1))"
  defines "msg \<equiv> Obj [(''bounds'', Obj b), (''params'', Obj (params (run pf initial es1)))]"
  shows "i < length (sockets w')
       \<and> req_bounds ws = b \<and> req_params ws = params w
       \<and> (sent ws = [] \<or> sent ws = [msg])
       \<and> (readyState ws = CONNECTING \<longrightarrow> sent ws = [])
       \<and> (readyState ws = OPEN \<longrightarrow> sent ws = [msg])
       \<and> (readyState ws = CONNECTING \<longrightarrow> sent (sockets (step pf w' (WsOpen i)) ! i) = [msg])
       \<and> (\<forall>e. e \<noteq> WsOpen i \<longrightarrow> sent (sockets (step pf w' e) ! i) = sent ws)
       \<and> map fst (params w)
           = [''startDate'', ''endDate'', ''minDepth'', ''maxDepth'', ''type'', ''variables'']
       \<and> (\<exists>s e. map_of (params w) ''startDate'' = Some (Str s) \<and> date_input_value s
               \<and> map_of (params w) ''endDate'' = Some (Str e) \<and> date_input_value e)
       \<and> (map_of (params w) ''type'' = Some (Str ''core'')
            \<or> map_of (params w) ''type'' = Some (Str ''bio''))
       \<and> map_of (params w) ''variables'' = Some (Arr [Str ''Temp'', Str ''Psal''])
       \<and> distinct (map fst b)
       \<and> (\<forall>kv \<in> set b. fst kv \<in> {''north'', ''south'', ''east'', ''west''}
              \<and> (snd kv = Str [] \<or> (\<exists>r. snd kv = Num (Fin r))))"
proof -
  have shape: "state_shape w"
    unfolding w_def by (rule state_shape_run [OF state_shape_initial assms(1)])
  have bw: "bounds w = Some b" using assms(2) by (simp add: w_def)
  let ?new = "\<lparr>readyState = CONNECTING, req_bounds = b, req_params = params w,
                sent = [], closes = 0\<rparr>"
  have s1: "sockets (step pf w Submit) = sockets w @ [?new]"
    using bw by (simp add: handleSubmit_def)
  have i1: "i < length (sockets (step pf w Submit))"
    "req_bounds (sockets (step pf w Submit) ! i) = b"
    "req_params (sockets (step pf w Submit) ! i) = params w"
    using s1 unfolding i_def w_def by simp_all
  have w': "w' = run pf (step pf w Submit) es2"
    by (simp add: w'_def w_def run_append)
  have keep: "i < length (sockets w')" "req_bounds ws = b" "req_params ws = params w"
    using run_keeps_request [OF i1(1), of pf es2] i1(2,3)
    by (simp_all add: w' ws_def w'_def [symmetric] i_def [symmetric])
  have "app_inv w'"
    unfolding w'_def by (rule app_inv_run [OF app_inv_initial])
  then have inv: "sock_inv ws"
    using keep(1) by (simp add: app_inv_def list_all_length ws_def w'_def i_def)
  have req: "request ws = msg"
    using keep(2,3) by (simp add: request_def msg_def w_def)
  have sent: "sent ws = [] \<or> sent ws = [msg]" "readyState ws = CONNECTING \<longrightarrow> sent ws = []"
    "readyState ws = OPEN \<longrightarrow> sent ws = [msg]"
    using inv req by (auto simp: sock_inv_def)
  have wsi: "ws = sockets w' ! i" by (simp add: ws_def w'_def i_def)
  have opn: "readyState ws = CONNECTING \<longrightarrow> sent (sockets (step pf w' (WsOpen i)) ! i) = [msg]"
    using keep(1) sent(2) req by (simp add: wsi [symmetric] onopen_def request_def)
  have other: "\<forall>e. e \<noteq> WsOpen i \<longrightarrow> sent (sockets (step pf w' e) ! i) = sent ws"
    using step_sent [OF keep(1)] by (simp add: wsi)
  have ps: "params_shape (params w)" and bs: "bounds_shape b"
    using shape bw by (simp_all add: state_shape_def)
  have p: "map fst (params w)
           = [''startDate'', ''endDate'', ''minDepth'', ''maxDepth'', ''type'', ''variables'']"
    "\<exists>s e. map_of (params w) ''startDate'' = Some (Str s) \<and> date_input_value s
               \<and> map_of (params w) ''endDate'' = Some (Str e) \<and> date_input_value e"
    "map_of (params w) ''type'' = Some (Str ''core'')
            \<or> map_of (params w) ''type'' = Some (Str ''bio'')"
    "map_of (params w) ''variables'' = Some (Arr [Str ''Temp'', Str ''Psal''])"
    using ps by (auto simp: params_shape_def date_field_def split: option.splits jsval.splits)
  have bd: "distinct (map fst b)"
    "\<forall>kv \<in> set b. fst kv \<in> {''north'', ''south'', ''east'', ''west''}
              \<and> (snd kv = Str [] \<or> (\<exists>r. snd kv = Num (Fin r)))"
    using bs by (auto simp: bounds_shape_def list_all_iff dest: bound_value_cases)
  show ?thesis using keep sent opn other p bd by blast
qed

text \<open>
  Witness for C4: the category is set to bio and the start date is changed before the
  click; after the click the category is set back and the north input is edited. The
  message holds bio, the new start date and the north edge of the click.
\<close>

theorem one_request_per_session_witness:
  "list_all (deliverable parseFloat_sample)
      [MapCreated ''rectangle'' (Fin 5) (Fin 1) (Fin 8) (Fin 2), TypeBio,
       ParamInput ''startDate'' ''2021-06-30'']
   \<and> bounds (run parseFloat_sample initial
        [MapCreated ''rectangle'' (Fin 5) (Fin 1) (Fin 8) (Fin 2), TypeBio,
         ParamInput ''startDate'' ''2021-06-30''])
       = Some (rect_bounds (Fin 5) (Fin 1) (Fin 8) (Fin 2))
   \<and> readyState (sockets (run parseFloat_sample initial
        ([MapCreated ''rectangle'' (Fin 5) (Fin 1) (Fin 8) (Fin 2), TypeBio,
          ParamInput ''startDate'' ''2021-06-30'']
         @ Submit # [TypeCore, BoundsInput ''north'' ''0'', WsOpen 0, WsMessage 0 (Log ''x'')]))
        ! 0) = OPEN
   \<and> sent (sockets (run parseFloat_sample initial
        ([MapCreated ''rectangle'' (Fin 5) (Fin 1) (Fin 8) (Fin 2), TypeBio,
          ParamInput ''startDate'' ''2021-06-30'']
         @ Submit # [TypeCore, BoundsInput ''north'' ''0'', WsOpen 0, WsMessage 0 (Log ''x'')]))
        ! 0)
     = [Obj [(''bounds'', Obj [(''north'', Num (Fin 5)), (''south'', Num (Fin 1)),
                              (''east'', Num (Fin 8)), (''west'', Num (Fin 2))]),
             (''params'', Obj [(''startDate'', Str ''2021-06-30''),
                              (''endDate'', Str ''2024-12-31''),
                              (''minDepth'', Num (Fin 0)), (''maxDepth'', Num (Fin 2000)),
                              (''type'', Str ''bio''),
                              (''variables'', Arr [Str ''Temp'', Str ''Psal''])])]]"
  using one_request_per_session [where pf = parseFloat_sample
      and b = "rect_bounds (Fin 5) (Fin 1) (Fin 8) (Fin 2)"
      and ?es1.0 = "[MapCreated ''rectangle'' (Fin 5) (Fin 1) (Fin 8) (Fin 2), TypeBio,
         ParamInput ''startDate'' ''2021-06-30'']"
      and ?es2.0 = "[TypeCore, BoundsInput ''north'' ''0'', WsOpen 0, WsMessage 0 (Log ''x'')]"]
  by (simp add: initial_def initial_params_def app_defs onCreate_def rect_bounds_def
      is_fin_def date_input_value_def is_digit_def two_digits_def update_conv'
      handleBoundsChange_def parseFloat_sample_def isNaN_def spread_def)

text \<open>
  Counterexample to C4 as stated. The message of a session with a drawn rectangle and the
  initial parameters: its \<^verbatim>\<open>params\<close> has a sixth field, \<^verbatim>\<open>variables\<close>. The message
  after the north input and the start date were cleared: its \<^verbatim>\<open>bounds\<close> has the one
  field north, which is no number, and its \<^verbatim>\<open>startDate\<close> is the empty string.
\<close>

theorem request_shape_counterexample:
  "list_all (deliverable parseFloat_sample)
      [MapCreated ''rectangle'' (Fin 5) (Fin 1) (Fin 8) (Fin 2), Submit, WsOpen 0]
   \<and> sent (sockets (run parseFloat_sample initial
        [MapCreated ''rectangle'' (Fin 5) (Fin 1) (Fin 8) (Fin 2), Submit, WsOpen 0]) ! 0)
     = [Obj [(''bounds'', Obj [(''north'', Num (Fin 5)), (''south'', Num (Fin 1)),
                              (''east'', Num (Fin 8)), (''west'', Num (Fin 2))]),
             (''params'', Obj [(''startDate'', Str ''2020-01-01''),
                              (''endDate'', Str ''2024-12-31''),
                              (''minDepth'', Num (Fin 0)), (''maxDepth'', Num (Fin 2000)),
                              (''type'', Str ''core''),
                              (''variables'', Arr [Str ''Temp'', Str ''Psal''])])]]
   \<and> list_all (deliverable parseFloat_sample)
      [BoundsInput ''north'' [], ParamInput ''startDate'' [], Submit, WsOpen 0]
   \<and> sent (sockets (run parseFloat_sample initial
        [BoundsInput ''north'' [], ParamInput ''startDate'' [], Submit, WsOpen 0]) ! 0)
     = [Obj [(''bounds'', Obj [(''north'', Str [])]),
             (''params'', Obj [(''startDate'', Str []),
                              (''endDate'', Str ''2024-12-31''),
                              (''minDepth'', Num (Fin 0)), (''maxDepth'', Num (Fin 2000)),
                              (''type'', Str ''core''),
                              (''variables'', Arr [Str ''Temp'', Str ''Psal''])])]]"
  by (simp add: initial_def initial_params_def app_defs onCreate_def rect_bounds_def
      request_def is_fin_def date_input_value_def number_input_value_def
      handleBoundsChange_def spread_def)

text \<open>
  \<^verbatim>\<open>handleChange\<close> stores the text of the input: after an edit of the minimum depth the
  field holds a string.
\<close>

lemma depth_edit_stores_string:
  "map_of (handleChange initial_params ''minDepth'' ''100'') ''minDepth'' = Some (Str ''100'')"
  by (simp add: handleChange_def update_conv')

section \<open>The preview\<close>

text \<open>
  \<open>split_js\<close> is the inverse of \<open>join_js\<close>: it never gives an empty list, its pieces
  hold no separator, joined they give the text back, and lines without separator that are
  joined split into themselves.
\<close>

lemma split_js_nonempty: "split_js c s \<noteq> []"
  by (induction s) (auto split: list.splits)

lemma split_js_no_sep: "c \<notin> set l \<Longrightarrow> split_js c l = [l]"
  by (induction l) auto

lemma split_js_append: "c \<notin> set l \<Longrightarrow> split_js c (l @ c # r) = l # split_js c r"
  by (induction l) auto

lemma split_join:
  "ls \<noteq> [] \<Longrightarrow> \<forall>l \<in> set ls. c \<notin> set l \<Longrightarrow> split_js c (join_js c ls) = ls"
proof (induction c ls rule: join_js.induct)
  case (1 c)
  then show ?case by simp
next
  case (2 c l)
  then show ?case by (simp add: split_js_no_sep)
next
  case (3 c l v va)
  then show ?case by (simp add: split_js_append)
qed

lemma join_split: "join_js c (split_js c s) = s"
proof (induction s)
  case Nil
  then show ?case by simp
next
  case (Cons x xs)
  obtain r rs where r: "split_js c xs = r # rs"
    using split_js_nonempty [of c xs] by (cases "split_js c xs") auto
  show ?case
  proof (cases "x = c")
    case True
    with Cons r show ?thesis by simp
  next
    case False
    with Cons r show ?thesis by (cases rs) auto
  qed
qed

lemma split_pieces: "l \<in> set (split_js c s) \<Longrightarrow> c \<notin> set l"
proof (induction s arbitrary: l)
  case Nil
  then show ?case by simp
next
  case (Cons x xs)
  obtain r rs where r: "split_js c xs = r # rs"
    using split_js_nonempty [of c xs] by (cases "split_js c xs") auto
  have "c \<notin> set r" "\<forall>l' \<in> set rs. c \<notin> set l'"
    using Cons.IH r by auto
  then show ?case using Cons.prems r by (auto split: if_splits)
qed

lemma DataPreview_lines:
  assumes "csv \<noteq> []" and "trim csv = join_js (CHR 0x0A) (h # rs)"
    and "\<forall>l \<in> set (h # rs). CHR 0x0A \<notin> set l"
  shows "DataPreview csv = Inr (Some \<lparr>headers = split_js CHR '','' h, dataRows = take 10 rs\<rparr>)"
proof -
  have "split_js (CHR 0x0A) (trim csv) = h # rs"
    unfolding assms(2) by (rule split_join) (use assms(3) in simp_all)
  then show ?thesis
    using assms(1) by (simp add: DataPreview_def slice_def)
qed

text \<open>
  C8 (amended). \<^verbatim>\<open>DataPreview\<close> never throws. For the empty text it renders nothing. For
  every other text it trims the white space around the text and reads what is left as
  lines with a line feed between them: the header cells are the first line split at the commas, the rows are the next lines, at
  most ten and in the order of the text, and the cells of a row are the row split at the
  commas. With fewer than ten lines after the first there are as many rows as lines.
\<close>

theorem DataPreview_table:
  "DataPreview [] = Inr None
   \<and> (\<exists>r. DataPreview csv = Inr r)
   \<and> (csv \<noteq> [] \<longrightarrow>
        (\<exists>h rs. trim csv = join_js (CHR 0x0A) (h # rs) \<and> (\<forall>l \<in> set (h # rs). CHR 0x0A \<notin> set l)))
   \<and> (csv \<noteq> [] \<and> trim csv = join_js (CHR 0x0A) (h # rs)
        \<and> (\<forall>l \<in> set (h # rs). CHR 0x0A \<notin> set l) \<longrightarrow>
        (\<exists>p. DataPreview csv = Inr (Some p)
           \<and> headers p = split_js CHR '','' h
           \<and> dataRows p = take 10 rs
           \<and> cells p = map (split_js CHR '','') (take 10 rs)
           \<and> length (cells p) = min 10 (length rs)))"
proof -
  have a: "DataPreview [] = Inr None" by (simp add: DataPreview_def)
  obtain r0 rest where sp: "split_js (CHR 0x0A) (trim csv) = r0 # rest"
    using split_js_nonempty [of "CHR 0x0A" "trim csv"]
    by (cases "split_js (CHR 0x0A) (trim csv)") auto
  have b: "\<exists>r. DataPreview csv = Inr r"
    using sp by (simp add: DataPreview_def)
  have "trim csv = join_js (CHR 0x0A) (r0 # rest)"
    using join_split [of "CHR 0x0A" "trim csv"] sp by simp
  moreover have "\<forall>l \<in> set (r0 # rest). CHR 0x0A \<notin> set l"
    using split_pieces [of _ "CHR 0x0A" "trim csv"] sp by auto
  ultimately have c: "\<exists>h rs. trim csv = join_js (CHR 0x0A) (h # rs)
      \<and> (\<forall>l \<in> set (h # rs). CHR 0x0A \<notin> set l)"
    by blast
  have d: "\<exists>p. DataPreview csv = Inr (Some p)
           \<and> headers p = split_js CHR '','' h
           \<and> dataRows p = take 10 rs
           \<and> cells p = map (split_js CHR '','') (take 10 rs)
           \<and> length (cells p) = min 10 (length rs)"
    if "csv \<noteq> []" "trim csv = join_js (CHR 0x0A) (h # rs)"
      "\<forall>l \<in> set (h # rs). CHR 0x0A \<notin> set l"
    using DataPreview_lines [OF that] by (simp add: cells_def min.commute)
  show ?thesis using a b c d by blast
qed

lemmas trim_defs = trim_def trimStart_def trimEnd_def strip.simps white_space_def

text \<open>
  Witness for C8: the header \<^verbatim>\<open>A,B,C\<close> and fifteen rows give three header cells and
  the first ten rows, in order.
\<close>

theorem DataPreview_table_witness:
  "join_js (CHR 0x0A) (''A,B,C'' # 
         [''1,a,A'', ''2,b,B'', ''3,c,C'', ''4,d,D'', ''5,e,E'',
          ''6,f,F'', ''7,g,G'', ''8,h,H'', ''9,i,I'', ''10,j,J'',
          ''11,k,K'', ''12,l,L'', ''13,m,M'', ''14,n,N'', ''15,o,O'']) \<noteq> []
   \<and> trim (join_js (CHR 0x0A) (''A,B,C'' # 
         [''1,a,A'', ''2,b,B'', ''3,c,C'', ''4,d,D'', ''5,e,E'',
          ''6,f,F'', ''7,g,G'', ''8,h,H'', ''9,i,I'', ''10,j,J'',
          ''11,k,K'', ''12,l,L'', ''13,m,M'', ''14,n,N'', ''15,o,O'']))
       = join_js (CHR 0x0A) (''A,B,C'' # 
         [''1,a,A'', ''2,b,B'', ''3,c,C'', ''4,d,D'', ''5,e,E'',
          ''6,f,F'', ''7,g,G'', ''8,h,H'', ''9,i,I'', ''10,j,J'',
          ''11,k,K'', ''12,l,L'', ''13,m,M'', ''14,n,N'', ''15,o,O''])
   \<and> CHR 0x0A \<notin> set (concat (''A,B,C'' # 
         [''1,a,A'', ''2,b,B'', ''3,c,C'', ''4,d,D'', ''5,e,E'',
          ''6,f,F'', ''7,g,G'', ''8,h,H'', ''9,i,I'', ''10,j,J'',
          ''11,k,K'', ''12,l,L'', ''13,m,M'', ''14,n,N'', ''15,o,O'']))
   \<and> DataPreview (join_js (CHR 0x0A) (''A,B,C'' # 
         [''1,a,A'', ''2,b,B'', ''3,c,C'', ''4,d,D'', ''5,e,E'',
          ''6,f,F'', ''7,g,G'', ''8,h,H'', ''9,i,I'', ''10,j,J'',
          ''11,k,K'', ''12,l,L'', ''13,m,M'', ''14,n,N'', ''15,o,O'']))
       = Inr (Some \<lparr>headers = [''A'', ''B'', ''C''], dataRows = 
         [''1,a,A'', ''2,b,B'', ''3,c,C'', ''4,d,D'', ''5,e,E'',
          ''6,f,F'', ''7,g,G'', ''8,h,H'', ''9,i,I'', ''10,j,J'']\<rparr>)
   \<and> length (cells \<lparr>headers = [''A'', ''B'', ''C''], dataRows = 
         [''1,a,A'', ''2,b,B'', ''3,c,C'', ''4,d,D'', ''5,e,E'',
          ''6,f,F'', ''7,g,G'', ''8,h,H'', ''9,i,I'', ''10,j,J'']\<rparr>) = 10"
  using DataPreview_table [of "join_js (CHR 0x0A) (''A,B,C'' # 
         [''1,a,A'', ''2,b,B'', ''3,c,C'', ''4,d,D'', ''5,e,E'',
          ''6,f,F'', ''7,g,G'', ''8,h,H'', ''9,i,I'', ''10,j,J'',
          ''11,k,K'', ''12,l,L'', ''13,m,M'', ''14,n,N'', ''15,o,O''])" "''A,B,C''" "
         [''1,a,A'', ''2,b,B'', ''3,c,C'', ''4,d,D'', ''5,e,E'',
          ''6,f,F'', ''7,g,G'', ''8,h,H'', ''9,i,I'', ''10,j,J'',
          ''11,k,K'', ''12,l,L'', ''13,m,M'', ''14,n,N'', ''15,o,O'']"]
  by (simp add: trim_defs cells_def DataPreview_def slice_def)

text \<open>
  Counterexample to C8 as stated: for the empty string nothing is rendered, no header of
  one empty cell. A text of one space does give that header and no rows.
\<close>

theorem empty_text_renders_nothing_counterexample:
  "DataPreview [] = Inr None
   \<and> DataPreview [] \<noteq> Inr (Some \<lparr>headers = [[]], dataRows = []\<rparr>)
   \<and> DataPreview '' '' = Inr (Some \<lparr>headers = [[]], dataRows = []\<rparr>)"
  by (simp add: DataPreview_def trim_defs slice_def)

end
